theory Spec2Isabelle
  imports Main "HOL-Library.Word" "HOL-Library.Sublist"
begin

section \<open>The Ryder serial driver (src/ryder-serial.ts)\<close>

text \<open>
  A shallow embedding of class \<open>RyderSerial\<close>: the command queue (the "train"), the
  engine state, the lock queue, the watchdog timer and the methods that act on them.
  The instance is a record that every method takes and returns; what a method does to
  the outside world (invoking a completion handle, emitting an observer event, writing
  to the port) is appended to the field \<open>effects\<close>, in the order the code does it.

  Conventions of the model:
  \<^item> an inbound buffer (\<open>Uint8Array\<close>) is a list of 8-bit words; a JavaScript string is
    the list of its 16-bit code units; a JavaScript number passed to \<open>send\<close> is an
    integer (\<open>String.fromCharCode\<close> reduces it modulo 65536);
  \<open>data[0]\<close> of an empty buffer is \<open>undefined\<close>, here \<open>None\<close>;
  \<^item> the \<open>resolve\<close>/\<open>reject\<close> pair that the Promise constructor hands to \<open>send\<close> is
    identified by the number \<open>eid\<close> stored in the queue entry; invoking a handle is
    recorded as \<open>Resolve eid v\<close> or \<open>Reject eid err\<close>;
  \<^item> \<open>setTimeout\<close> creates a fresh timer, \<open>clearTimeout\<close> disarms the one whose handle
    is stored in the instance; \<open>timers\<close> lists the armed watchdog timers;
  \<^item> a thrown exception is the outcome \<open>Throws\<close>, returned with the state reached when
    it was thrown;
  \<^item> whether a call of \<open>serial.write\<close> throws is decided by the environment: the field
    \<open>write_faults\<close> scripts the outcomes of the coming calls (none scripted: the write
    succeeds);
  \<^item> logging is left out; observers of emitted events are taken to return normally. An
    \<open>EventEmitter\<close> with no listener for "error" throws the error it is asked to emit;
    \<open>error_listener\<close> says whether the application has registered one.
\<close>

type_synonym byte = "8 word"
type_synonym jsstring = "16 word list"

datatype State = IDLE | SENDING | READING

datatype js_error = Error string | TypeError

datatype js_value = VNum byte | VStr jsstring

datatype effect =
    Resolve nat js_value
  | Reject nat js_error
  | Emit string
  | EmitError string js_error
  | Write jsstring
  | SerialClose

datatype outcome = Normal | Throws js_error

text \<open>The only value ever pushed on the lock queue is the function \<open>Promise.resolve\<close>.\<close>

datatype release = Promise_resolve

text \<open>\<open>TrainEntry\<close>: data, the resolve/reject pair, isEscapedByte, output buffer.\<close>

record entry =
  data :: jsstring
  eid :: nat
  esc :: bool
  out :: jsstring

record ryder =
  train :: "entry list"
  engine :: State
  lock_q :: "release list"
  watchdog :: "nat option"
  timers :: "nat list"
  timer_ctr :: nat
  serial :: "bool option"
  closing :: bool
  reconnect :: bool
  reject_on_locked :: bool
  next_eid :: nat
  write_faults :: "js_error option list"
  error_listener :: bool
  effects :: "effect list"

subsection \<open>Constants\<close>

definition RESPONSE_OK :: byte where "RESPONSE_OK = 1"
definition RESPONSE_SEND_INPUT :: byte where "RESPONSE_SEND_INPUT = 2"
definition RESPONSE_REJECTED :: byte where "RESPONSE_REJECTED = 3"
definition RESPONSE_OUTPUT :: byte where "RESPONSE_OUTPUT = 4"
definition RESPONSE_OUTPUT_END :: byte where "RESPONSE_OUTPUT_END = 5"
definition RESPONSE_ESC_SEQUENCE :: byte where "RESPONSE_ESC_SEQUENCE = 6"
definition RESPONSE_WAIT_USER_CONFIRM :: byte where "RESPONSE_WAIT_USER_CONFIRM = 10"
definition RESPONSE_LOCKED :: byte where "RESPONSE_LOCKED = 11"

definition response_errors :: "byte \<Rightarrow> string option" where
  "response_errors b =
     (if b = 255 then Some ''RESPONSE_ERROR_UNKNOWN_COMMAND''
      else if b = 254 then Some ''RESPONSE_ERROR_NOT_INITIALIZED''
      else if b = 253 then Some ''RESPONSE_ERROR_MEMORY_ERROR''
      else if b = 252 then Some ''RESPONSE_ERROR_APP_DOMAIN_TOO_LONG''
      else if b = 251 then Some ''RESPONSE_ERROR_APP_DOMAIN_INVALID''
      else if b = 250 then Some ''RESPONSE_ERROR_MNEMONIC_TOO_LONG''
      else if b = 249 then Some ''RESPONSE_ERROR_MNEMONIC_INVALID''
      else if b = 248 then Some ''RESPONSE_ERROR_GENERATE_MNEMONIC''
      else if b = 247 then Some ''RESPONSE_ERROR_INPUT_TIMEOUT''
      else if b = 246 then Some ''RESPONSE_ERROR_NOT_IMPLEMENTED''
      else None)"

text \<open>
  The message of the error built in the last branch of the SENDING chain:
  \<open>data[0] in response_errors ? response_errors[data[0]] : "ERROR_UNKNOWN_RESPONSE"\<close>.
\<close>

definition response_error :: "byte option \<Rightarrow> js_error" where
  "response_error d0 =
     (case d0 of
        None \<Rightarrow> Error ''ERROR_UNKNOWN_RESPONSE''
      | Some b \<Rightarrow>
          (case response_errors b of
             Some name \<Rightarrow> Error name
           | None \<Rightarrow> Error ''ERROR_UNKNOWN_RESPONSE''))"

definition String_fromCharCode :: "int \<Rightarrow> jsstring" where
  "String_fromCharCode n = [word_of_int n]"

subsection \<open>Effects and timers\<close>

definition effect :: "effect \<Rightarrow> ryder \<Rightarrow> ryder" where
  "effect x s = s\<lparr>effects := effects s @ [x]\<rparr>"

definition emit :: "string \<Rightarrow> ryder \<Rightarrow> ryder" where
  "emit name s = effect (Emit name) s"

definition clearTimeout :: "ryder \<Rightarrow> ryder" where
  "clearTimeout s =
     (case watchdog s of
        None \<Rightarrow> s
      | Some h \<Rightarrow> s\<lparr>timers := removeAll h (timers s)\<rparr>)"

definition setTimeout :: "ryder \<Rightarrow> ryder" where
  "setTimeout s =
     s\<lparr>timers := timers s @ [timer_ctr s],
       watchdog := Some (timer_ctr s),
       timer_ctr := Suc (timer_ctr s)\<rparr>"

definition is_open :: "ryder \<Rightarrow> bool" where
  "is_open s = (serial s = Some True)"

text \<open>The loops \<open>for (i ...) reject(error)\<close> over the whole train.\<close>

definition reject_all :: "js_error \<Rightarrow> ryder \<Rightarrow> ryder" where
  "reject_all err s = s\<lparr>effects := effects s @ map (\<lambda>e. Reject (eid e) err) (train s)\<rparr>"

subsection \<open>clear, next, the watchdog\<close>

text \<open>
  \<open>clear\<close> releases the locks by calling each stored handle as
  \<open>this[lock_symbol][i]()\<close>. The handle is \<open>Promise.resolve\<close> and the receiver of the
  call is the array, which is no constructor: the call throws a TypeError, and the
  assignment that empties the lock queue is not reached.
\<close>

definition clear :: "ryder \<Rightarrow> outcome \<times> ryder" where
  "clear s =
     (let s1 = clearTimeout s;
          s2 = reject_all (Error ''ERROR_CLEARED'') s1;
          s3 = s2\<lparr>train := [], engine := IDLE\<rparr>
      in case lock_q s3 of
           [] \<Rightarrow> (Normal, s3\<lparr>lock_q := []\<rparr>)
         | Promise_resolve # _ \<Rightarrow> (Throws TypeError, s3))"

text \<open>\<open>this.serial.write(str)\<close>: the error it throws, if the environment has it throw.\<close>

definition serial_write :: "jsstring \<Rightarrow> ryder \<Rightarrow> js_error option \<times> ryder" where
  "serial_write str s =
     (case write_faults s of
        [] \<Rightarrow> (None, effect (Write str) s)
      | None # fs \<Rightarrow> (None, effect (Write str) (s\<lparr>write_faults := fs\<rparr>))
      | Some err # fs \<Rightarrow> (Some err, s\<lparr>write_faults := fs\<rparr>))"

text \<open>
  \<open>serial_error\<close> up to its last statement, the call of \<open>next\<close>: emit "error", shift and
  reject the head if there is one, clear the watchdog, go IDLE.
\<close>

definition serial_error_reset :: "js_error \<Rightarrow> ryder \<Rightarrow> outcome \<times> ryder" where
  "serial_error_reset err s =
     (if \<not> error_listener s then (Throws err, s)
      else
        (let s1 = effect (EmitError ''error'' err) s;
             s2 = (case train s1 of
                     [] \<Rightarrow> s1
                   | e # es \<Rightarrow> effect (Reject (eid e) err) (s1\<lparr>train := es\<rparr>))
         in (Normal, (clearTimeout s2)\<lparr>engine := IDLE\<rparr>)))"

text \<open>
  \<open>next\<close>. In the \<open>catch\<close> branch it calls \<open>serial_error\<close>, which ends by calling \<open>next\<close>
  again, on a train that has lost its head.
\<close>

function next_cmd :: "ryder \<Rightarrow> outcome \<times> ryder" where
  "next_cmd s =
     (if engine s = IDLE \<and> train s \<noteq> [] then
        (if \<not> is_open s then
           (let rej = eid (hd (train s)) in
            case clear s of
              (Throws err, s1) \<Rightarrow> (Throws err, s1)
            | (Normal, s1) \<Rightarrow> (Normal, effect (Reject rej (Error ''ERROR_DISCONNECTED'')) s1))
         else
           (case serial_write (data (hd (train s))) (s\<lparr>engine := SENDING\<rparr>) of
              (Some err, s2) \<Rightarrow>
                (case serial_error_reset err s2 of
                   (Throws err', s3) \<Rightarrow> (Throws err', s3)
                 | (Normal, s3) \<Rightarrow> next_cmd s3)
            | (None, s2) \<Rightarrow> (Normal, setTimeout (clearTimeout s2))))
      else (Normal, s))"
  by pat_completeness auto
termination
  by (relation "measure (\<lambda>s. length (train s))")
    (auto simp add: serial_write_def serial_error_reset_def effect_def clearTimeout_def Let_def
      split: if_splits list.splits option.splits)

declare next_cmd.simps [simp del]

definition serial_error :: "js_error \<Rightarrow> ryder \<Rightarrow> outcome \<times> ryder" where
  "serial_error err s =
     (case serial_error_reset err s of
        (Throws err', s1) \<Rightarrow> (Throws err', s1)
      | (Normal, s1) \<Rightarrow> next_cmd s1)"

definition serial_watchdog :: "ryder \<Rightarrow> outcome \<times> ryder" where
  "serial_watchdog s =
     (case train s of
        [] \<Rightarrow> (Normal, s)
      | e # es \<Rightarrow>
          next_cmd ((effect (Reject (eid e) (Error ''ERROR_WATCHDOG'')) (s\<lparr>train := es\<rparr>))
                      \<lparr>engine := IDLE\<rparr>))"

text \<open>An armed timer \<open>t\<close> expires: it is single-shot, then the callback runs.\<close>

definition timer_fires :: "nat \<Rightarrow> ryder \<Rightarrow> outcome \<times> ryder" where
  "timer_fires t s =
     (if t \<in> set (timers s) then serial_watchdog (s\<lparr>timers := removeAll t (timers s)\<rparr>)
      else (Normal, s))"

subsection \<open>The frame decoder\<close>

text \<open>
  The \<open>for\<close> loop of the READING branch over the bytes from \<open>offset\<close> on. It reads and
  writes only fields 3 and 4 of the head entry; the result is the head entry and whether
  an unescaped OUTPUT_END was met (the loop returns there and drops the bytes after it).
\<close>

fun read_loop :: "entry \<Rightarrow> byte list \<Rightarrow> entry \<times> bool" where
  "read_loop e [] = (e, False)"
| "read_loop e (b # bs) =
     (if \<not> esc e \<and> b = RESPONSE_ESC_SEQUENCE then read_loop (e\<lparr>esc := True\<rparr>) bs
      else if \<not> esc e \<and> b = RESPONSE_OUTPUT_END then (e, True)
      else read_loop (e\<lparr>esc := False, out := out e @ String_fromCharCode (uint b)\<rparr>) bs)"

text \<open>
  The block \<open>if (state === READING)\<close>: arm the watchdog, scan, and on OUTPUT_END resolve
  the head with its output buffer, shift, go IDLE and call \<open>next\<close>. The loop reads
  \<open>train[0][3]\<close>; \<open>serial_data\<close> has returned before this block when there is no head, and
  with no head the first iteration would throw.
\<close>

definition reading :: "ryder \<Rightarrow> nat \<Rightarrow> byte list \<Rightarrow> outcome \<times> ryder" where
  "reading s offset bytes =
     (let s1 = setTimeout s in
      case train s1 of
        [] \<Rightarrow> (if drop offset bytes = [] then Normal else Throws TypeError, s1)
      | e # es \<Rightarrow>
          (case read_loop e (drop offset bytes) of
             (e', True) \<Rightarrow>
               next_cmd ((effect (Resolve (eid e') (VStr (out e'))) s1)
                           \<lparr>train := es, engine := IDLE\<rparr>)
           | (e', False) \<Rightarrow> (Normal, s1\<lparr>train := e' # es\<rparr>)))"

definition data0 :: "byte list \<Rightarrow> byte option" where
  "data0 bytes = (case bytes of [] \<Rightarrow> None | b # _ \<Rightarrow> Some b)"

function serial_data :: "ryder \<Rightarrow> byte list \<Rightarrow> outcome \<times> ryder" where
  "serial_data s0 bytes =
     (if engine s0 = IDLE then (Normal, s0)
      else
        (let s = clearTimeout s0 in
         case train s of
           [] \<Rightarrow> (Normal, s)
         | e # es \<Rightarrow>
             (if engine s = SENDING then
                (if data0 bytes = Some RESPONSE_LOCKED \<and> reject_on_locked s then
                   (Normal, emit ''locked''
                      ((reject_all (Error ''ERROR_LOCKED'') s)\<lparr>engine := IDLE\<rparr>))
                 else
                   (let s = (if data0 bytes = Some RESPONSE_LOCKED then emit ''locked'' s else s)
                    in
                    if data0 bytes = Some RESPONSE_OK \<or> data0 bytes = Some RESPONSE_SEND_INPUT
                       \<or> data0 bytes = Some RESPONSE_REJECTED
                    then
                      (let s = effect (Resolve (eid e) (VNum (hd bytes))) (s\<lparr>train := es\<rparr>) in
                       if length bytes > 1 then serial_data s (tl bytes)
                       else next_cmd (s\<lparr>engine := IDLE\<rparr>))
                    else if data0 bytes = Some RESPONSE_OUTPUT then
                      reading (s\<lparr>engine := READING\<rparr>) 1 bytes
                    else if data0 bytes = Some RESPONSE_WAIT_USER_CONFIRM then
                      (let s = emit ''wait_user_confirm'' s in
                       if length bytes > 1 then serial_data s (tl bytes)
                       else (Normal, s))
                    else
                      (let s = (effect (Reject (eid e) (response_error (data0 bytes))) s)
                                 \<lparr>train := es, engine := IDLE\<rparr> in
                       if length bytes > 1 then serial_data s (tl bytes)
                       else next_cmd s)))
              else reading s 0 bytes)))"
  by pat_completeness auto
termination
  by (relation "measure (\<lambda>(s, bytes). length bytes)") auto

declare serial_data.simps [simp del]

subsection \<open>The public methods\<close>

datatype send_data = DStr jsstring | DNum int

text \<open>What \<open>send\<close> returns: a promise already rejected, or the pending promise of an entry.\<close>

datatype promise = Rejected js_error | Pending nat

definition send :: "send_data \<Rightarrow> bool \<Rightarrow> ryder \<Rightarrow> promise \<times> ryder" where
  "send d prepend s =
     (if \<not> is_open s then (Rejected (Error ''ERROR_DISCONNECTED''), s)
      else
        (let str = (case d of DNum n \<Rightarrow> String_fromCharCode n | DStr x \<Rightarrow> x);
             c = \<lparr>data = str, eid = next_eid s, esc = False, out = []\<rparr>;
             s1 = s\<lparr>next_eid := Suc (next_eid s)\<rparr>;
             s2 = s1\<lparr>train := (if prepend then c # train s1 else train s1 @ [c])\<rparr>
         in case next_cmd s2 of
              (Normal, s3) \<Rightarrow> (Pending (eid c), s3)
            | (Throws err, s3) \<Rightarrow> (Pending (eid c), effect (Reject (eid c) err) s3)))"

definition locked :: "ryder \<Rightarrow> bool" where
  "locked s = (length (lock_q s) \<noteq> 0)"

text \<open>
  \<open>lock\<close> pushes \<open>Promise.resolve\<close> and returns \<open>Promise.resolve()\<close>: the waiter it
  returns is fulfilled at once, whatever the lock queue holds.
\<close>

datatype waiter = Fulfilled | Waiting

definition lock :: "ryder \<Rightarrow> waiter \<times> ryder" where
  "lock s = (Fulfilled, s\<lparr>lock_q := lock_q s @ [Promise_resolve]\<rparr>)"

text \<open>
  \<open>unlock\<close> shifts the first handle and calls it as a plain function; the handle is
  \<open>Promise.resolve\<close>, whose receiver is then \<open>undefined\<close> (strict mode): a TypeError,
  thrown after the shift.
\<close>

definition unlock :: "ryder \<Rightarrow> outcome \<times> ryder" where
  "unlock s =
     (case lock_q s of
        [] \<Rightarrow> (Normal, s)
      | Promise_resolve # rest \<Rightarrow> (Throws TypeError, s\<lparr>lock_q := rest\<rparr>))"

definition close :: "ryder \<Rightarrow> outcome \<times> ryder" where
  "close s =
     (if closing s then (Normal, s)
      else
        (case clear (s\<lparr>closing := True\<rparr>) of
           (Throws err, s1) \<Rightarrow> (Throws err, s1)
         | (Normal, s1) \<Rightarrow>
             (let s2 = (if serial s1 = None then s1 else effect SerialClose s1)
              in (Normal, s2\<lparr>reconnect := False, serial := None\<rparr>))))"

subsection \<open>Construction and the port's events\<close>

text \<open>
  The constructor followed by the first \<open>open()\<close>: empty train and lock queue, IDLE, a
  port object that is not open yet, no timer handle stored.
\<close>

definition init :: "bool \<Rightarrow> ryder" where
  "init rol =
     \<lparr>train = [], engine = IDLE, lock_q = [], watchdog = None, timers = [], timer_ctr = 0,
      serial = Some False, closing = False, reconnect = False, reject_on_locked = rol,
      next_eid = 0, write_faults = [], error_listener = False, effects = []\<rparr>"

text \<open>
  \<open>open()\<close> called again, as the reconnect interval does: nothing if the port is open;
  a port object that is closed is torn down by \<open>close()\<close> first; then a new port object
  is created, which is not open yet.
\<close>

definition open_port :: "ryder \<Rightarrow> outcome \<times> ryder" where
  "open_port s =
     (let s1 = s\<lparr>closing := False\<rparr> in
      if serial s1 = Some True then (Normal, s1)
      else
        (case (if serial s1 \<noteq> None then close s1 else (Normal, s1)) of
           (Throws err, s2) \<Rightarrow> (Throws err, s2)
         | (Normal, s2) \<Rightarrow> (Normal, s2\<lparr>serial := Some False\<rparr>)))"

text \<open>
  The handlers bound to the port's "open", "close" and "error" events. That the port
  is open, or no longer open, when its event is delivered is the port's doing. The
  "open" and "close" handlers do not look at \<open>this.serial\<close>: they run the same when
  \<open>close()\<close> has dropped the port object in the meantime.
\<close>

definition on_open :: "ryder \<Rightarrow> outcome \<times> ryder" where
  "on_open s =
     (let s0 = (case serial s of None \<Rightarrow> s | Some _ \<Rightarrow> s\<lparr>serial := Some True\<rparr>);
          s1 = emit ''open'' (s0\<lparr>reconnect := False\<rparr>)
      in next_cmd s1)"

definition on_close :: "ryder \<Rightarrow> ryder" where
  "on_close s =
     (let s0 = (case serial s of None \<Rightarrow> s | Some _ \<Rightarrow> s\<lparr>serial := Some False\<rparr>);
          s1 = emit ''close'' s0
      in s1\<lparr>reconnect := \<not> closing s1\<rparr>)"

definition on_error :: "js_error \<Rightarrow> ryder \<Rightarrow> ryder" where
  "on_error err s =
     (if serial s = Some False
      then effect (EmitError ''failed'' err) (s\<lparr>reconnect := True\<rparr>)
      else s)"

subsection \<open>Runs of the engine\<close>

text \<open>
  What can happen to an instance, one event at a time: the port's events, the public
  methods, an inbound buffer, the expiry of a timer, and the environment's choices (the
  application registers an "error" listener; the coming writes fail as scripted).
\<close>

datatype event =
    EvOpen
  | EvClose
  | EvError js_error
  | EvSend send_data bool
  | EvData "byte list"
  | EvTimer nat
  | EvLock
  | EvUnlock
  | EvClear
  | EvCloseCall
  | EvOpenCall
  | EvListenError
  | EvWriteFaults "js_error option list"

fun step :: "ryder \<Rightarrow> event \<Rightarrow> ryder" where
  "step s EvOpen = snd (on_open s)"
| "step s EvClose = on_close s"
| "step s (EvSend d p) = snd (send d p s)"
| "step s (EvData bytes) = snd (serial_data s bytes)"
| "step s (EvTimer t) = snd (timer_fires t s)"
| "step s EvLock = snd (lock s)"
| "step s EvUnlock = snd (unlock s)"
| "step s EvClear = snd (clear s)"
| "step s EvCloseCall = snd (close s)"
| "step s EvOpenCall = snd (open_port s)"
| "step s (EvError err) = on_error err s"
| "step s EvListenError = s\<lparr>error_listener := True\<rparr>"
| "step s (EvWriteFaults fs) = s\<lparr>write_faults := fs\<rparr>"

definition run :: "bool \<Rightarrow> event list \<Rightarrow> ryder" where
  "run rol evs = foldl step (init rol) evs"

section \<open>Notions used to state the properties\<close>

text \<open>The invocations of the completion handles of entry \<open>i\<close>, in order.\<close>

definition handle_calls :: "nat \<Rightarrow> effect list \<Rightarrow> effect list" where
  "handle_calls i fx =
     filter (\<lambda>x. case x of Resolve j _ \<Rightarrow> j = i | Reject j _ \<Rightarrow> j = i | _ \<Rightarrow> False) fx"

text \<open>
  The device-side encoding of an output record, as the specification describes it (the
  driver itself only decodes): an escape byte before every control byte, the control
  bytes being 1, 2, 3, 4, 5, 6, 10, 11 and the error range 246..255, and the result
  framed by OUTPUT and OUTPUT_END.
\<close>

definition control_byte :: "byte \<Rightarrow> bool" where
  "control_byte b = (b \<in> {1, 2, 3, 4, 5, 6, 10, 11} \<or> 246 \<le> b)"

fun encode :: "byte list \<Rightarrow> byte list" where
  "encode [] = []"
| "encode (b # bs) =
     (if control_byte b then [RESPONSE_ESC_SEQUENCE, b] else [b]) @ encode bs"

definition frame :: "byte list \<Rightarrow> byte list" where
  "frame B = RESPONSE_OUTPUT # encode B @ [RESPONSE_OUTPUT_END]"

text \<open>
  The JavaScript string that holds the bytes \<open>B\<close>, one code unit per byte, as
  \<open>output_buffer += String.fromCharCode(b)\<close> builds it.
\<close>

definition string_of_bytes :: "byte list \<Rightarrow> jsstring" where
  "string_of_bytes B = concat (map (\<lambda>b. String_fromCharCode (uint b)) B)"




text \<open>
  Feeding a stream to the decoder buffer by buffer, and what one inbound buffer does to
  the watchdog when it does not complete the head: clear it, arm it again.
\<close>

definition feed :: "ryder \<Rightarrow> byte list list \<Rightarrow> ryder" where
  "feed s chunks = foldl (\<lambda>s bytes. snd (serial_data s bytes)) s chunks"

definition rearm :: "ryder \<Rightarrow> ryder" where
  "rearm s = setTimeout (clearTimeout s)"



text \<open>
  The watchdog invariant: every armed timer is the one whose handle the instance
  stores, and while READING a timer is armed and the train has a head.
\<close>

definition wd_ok :: "ryder \<Rightarrow> bool" where
  "wd_ok s = (timers s = [] \<or> (\<exists>h. watchdog s = Some h \<and> timers s = [h]))"

definition wd_inv :: "ryder \<Rightarrow> bool" where
  "wd_inv s = (wd_ok s \<and> (engine s = READING \<longrightarrow> timers s \<noteq> [] \<and> train s \<noteq> []))"

section \<open>Basic facts\<close>

lemmas response_defs =
  RESPONSE_OK_def RESPONSE_SEND_INPUT_def RESPONSE_REJECTED_def RESPONSE_OUTPUT_def
  RESPONSE_OUTPUT_END_def RESPONSE_ESC_SEQUENCE_def RESPONSE_WAIT_USER_CONFIRM_def
  RESPONSE_LOCKED_def

text \<open>The equations that evaluate a concrete run.\<close>

lemmas engine_defs =
  run_def init_def on_open_def on_close_def on_error_def emit_def effect_def next_cmd.simps
  serial_write_def serial_error_reset_def serial_error_def send_def open_port_def
  is_open_def clearTimeout_def setTimeout_def data0_def response_defs reject_all_def
  clear_def serial_watchdog_def timer_fires_def reading_def response_error_def
  response_errors_def String_fromCharCode_def lock_def unlock_def close_def Let_def

lemma clearTimeout_fields [simp]:
  "train (clearTimeout s) = train s"
  "engine (clearTimeout s) = engine s"
  "lock_q (clearTimeout s) = lock_q s"
  "watchdog (clearTimeout s) = watchdog s"
  "timer_ctr (clearTimeout s) = timer_ctr s"
  "serial (clearTimeout s) = serial s"
  "closing (clearTimeout s) = closing s"
  "reconnect (clearTimeout s) = reconnect s"
  "reject_on_locked (clearTimeout s) = reject_on_locked s"
  "next_eid (clearTimeout s) = next_eid s"
  "write_faults (clearTimeout s) = write_faults s"
  "error_listener (clearTimeout s) = error_listener s"
  "effects (clearTimeout s) = effects s"
  by (simp_all add: clearTimeout_def split: option.splits)

lemma setTimeout_fields [simp]:
  "train (setTimeout s) = train s"
  "engine (setTimeout s) = engine s"
  "lock_q (setTimeout s) = lock_q s"
  "watchdog (setTimeout s) = Some (timer_ctr s)"
  "timers (setTimeout s) = timers s @ [timer_ctr s]"
  "timer_ctr (setTimeout s) = Suc (timer_ctr s)"
  "serial (setTimeout s) = serial s"
  "closing (setTimeout s) = closing s"
  "reconnect (setTimeout s) = reconnect s"
  "reject_on_locked (setTimeout s) = reject_on_locked s"
  "next_eid (setTimeout s) = next_eid s"
  "write_faults (setTimeout s) = write_faults s"
  "error_listener (setTimeout s) = error_listener s"
  "effects (setTimeout s) = effects s"
  by (simp_all add: setTimeout_def)

lemma clearTimeout_upd [simp]:
  "clearTimeout (s\<lparr>train := tr\<rparr>) = (clearTimeout s)\<lparr>train := tr\<rparr>"
  "clearTimeout (s\<lparr>engine := st\<rparr>) = (clearTimeout s)\<lparr>engine := st\<rparr>"
  "clearTimeout (s\<lparr>effects := fx\<rparr>) = (clearTimeout s)\<lparr>effects := fx\<rparr>"
  by (simp_all add: clearTimeout_def split: option.splits)

lemma setTimeout_upd [simp]:
  "setTimeout (s\<lparr>train := tr\<rparr>) = (setTimeout s)\<lparr>train := tr\<rparr>"
  "setTimeout (s\<lparr>engine := st\<rparr>) = (setTimeout s)\<lparr>engine := st\<rparr>"
  "setTimeout (s\<lparr>effects := fx\<rparr>) = (setTimeout s)\<lparr>effects := fx\<rparr>"
  by (simp_all add: setTimeout_def)

lemma serial_data_idle: "engine s = IDLE \<Longrightarrow> serial_data s bs = (Normal, s)"
  by (simp add: serial_data.simps)

lemma next_cmd_empty: "train s = [] \<Longrightarrow> next_cmd s = (Normal, s)"
  by (simp add: next_cmd.simps)

lemma clear_effects_prefix: "prefix (effects s) (effects (snd (clear s)))"
  by (simp add: clear_def Let_def reject_all_def split: list.splits release.splits)

lemma serial_write_effects_prefix:
  "serial_write str s = (r, s') \<Longrightarrow> prefix (effects s) (effects s')"
  by (auto simp add: serial_write_def effect_def split: list.splits option.splits)

lemma serial_error_reset_effects_prefix:
  "serial_error_reset err s = (r, s') \<Longrightarrow> prefix (effects s) (effects s')"
  by (auto simp add: serial_error_reset_def effect_def Let_def split: if_splits list.splits)

lemma next_cmd_effects_prefix: "prefix (effects s) (effects (snd (next_cmd s)))"
proof (induction s rule: next_cmd.induct)
  case (1 s)
  show ?case
  proof (cases "engine s = IDLE \<and> train s \<noteq> []")
    case False
    then show ?thesis by (auto simp add: next_cmd.simps [of s])
  next
    case busy: True
    show ?thesis
    proof (cases "is_open s")
      case False
      obtain r s1 where c: "clear s = (r, s1)" by (cases "clear s")
      then have "prefix (effects s) (effects s1)" using clear_effects_prefix [of s] by simp
      then show ?thesis using c busy False
        by (auto simp add: next_cmd.simps [of s] Let_def effect_def split: outcome.splits
            intro: prefix_order.trans)
    next
      case op: True
      obtain w s2 where sw: "serial_write (data (hd (train s))) (s\<lparr>engine := SENDING\<rparr>) = (w, s2)"
        by (cases "serial_write (data (hd (train s))) (s\<lparr>engine := SENDING\<rparr>)")
      have p2: "prefix (effects s) (effects s2)"
        using serial_write_effects_prefix [OF sw] by simp
      show ?thesis
      proof (cases w)
        case None
        then show ?thesis using busy op sw p2 by (simp add: next_cmd.simps [of s])
      next
        case (Some err)
        obtain r s3 where se: "serial_error_reset err s2 = (r, s3)"
          by (cases "serial_error_reset err s2")
        have p3: "prefix (effects s2) (effects s3)"
          using serial_error_reset_effects_prefix [OF se] .
        show ?thesis
        proof (cases r)
          case Normal
          have "prefix (effects s3) (effects (snd (next_cmd s3)))"
            using "1.IH" [OF busy _ sw [symmetric, unfolded Some] _ se [symmetric, unfolded Normal]] op
            by simp
          with p2 p3 have "prefix (effects s) (effects (snd (next_cmd s3)))"
            by (meson prefix_order.trans)
          moreover have "next_cmd s = next_cmd s3"
            using busy op sw Some se Normal by (simp add: next_cmd.simps [of s])
          ultimately show ?thesis by simp
        next
          case (Throws e)
          from p2 p3 have "prefix (effects s) (effects s3)"
            by (meson prefix_order.trans)
          moreover have "next_cmd s = (Throws e, s3)"
            using busy op sw Some se Throws by (simp add: next_cmd.simps [of s])
          ultimately show ?thesis by simp
        qed
      qed
    qed
  qed
qed

section \<open>Submission\<close>

text \<open>
  C8. If the serial port is absent (\<open>serial = undefined\<close>) or not open when \<open>send\<close> is
  called, the returned promise is already rejected with ERROR_DISCONNECTED, and the
  instance is left as it was: no entry is queued, the engine state is unchanged. This
  holds for every payload and both values of \<open>prepend\<close>.
\<close>

theorem send_disconnected:
  assumes "serial s = None \<or> serial s = Some False"
  shows "send d p s = (Rejected (Error ''ERROR_DISCONNECTED''), s)"
  using assms by (auto simp add: send_def is_open_def)

text \<open>The port that is not open yet, and the port dropped by \<open>close\<close>.\<close>

theorem send_disconnected_witness:
  "send (DStr [2]) False (init False) = (Rejected (Error ''ERROR_DISCONNECTED''), init False) \<and>
   send (DNum 2) True (snd (close (init False)))
     = (Rejected (Error ''ERROR_DISCONNECTED''), snd (close (init False)))"
proof -
  have 1: "serial (init False) = None \<or> serial (init False) = Some False"
    by (simp add: init_def)
  have 2: "serial (snd (close (init False))) = None \<or> serial (snd (close (init False))) = Some False"
    by (simp add: engine_defs)
  show ?thesis
    using send_disconnected [OF 1, of "DStr [2]" False] send_disconnected [OF 2, of "DNum 2" True]
    by simp
qed

text \<open>
  C10. Sending the number \<open>n\<close> behaves as sending the one-character string whose char
  code is \<open>n\<close>: the promise returned and the whole instance afterwards (in particular
  the queued outbound data) are the same in both runs, for either value of \<open>prepend\<close>.
\<close>

theorem send_number_is_send_char:
  assumes "uint c = n"
  shows "send (DNum n) p s = send (DStr [c]) p s"
  using assms by (auto simp add: send_def String_fromCharCode_def)

theorem send_number_is_send_char_witness:
  "send (DNum 30) False (run False [EvOpen]) = send (DStr [0x1E]) False (run False [EvOpen]) \<and>
   fst (send (DNum 30) False (run False [EvOpen])) = Pending 0 \<and>
   map data (train (snd (send (DNum 30) False (run False [EvOpen])))) = [[0x1E]]"
proof -
  have h: "uint (0x1E :: 16 word) = 30" by simp
  show ?thesis
    using send_number_is_send_char [OF h, of False "run False [EvOpen]"]
    by (simp add: engine_defs)
qed

section \<open>The lock layer\<close>

text \<open>
  C4. The claim is that the waiter of a second \<open>lock()\<close> taken before any \<open>unlock()\<close> is
  not yet resolved. In the code every \<open>lock()\<close> returns \<open>Promise.resolve()\<close>: after a
  first \<open>lock()\<close> the instance is locked, and the waiter of the second \<open>lock()\<close> is
  fulfilled all the same.
\<close>

theorem second_lock_waiter_already_fulfilled:
  "locked (snd (lock s)) \<and> fst (lock (snd (lock s))) = Fulfilled"
  by (simp add: lock_def locked_def)




section \<open>The frame decoder\<close>

lemma string_of_bytes_ucast: "string_of_bytes B = map ucast B"
  by (induction B) (simp_all add: string_of_bytes_def String_fromCharCode_def)

lemma ucast_string_of_bytes: "map ucast (string_of_bytes B) = B"
  by (induction B) (simp_all add: string_of_bytes_ucast ucast_up_ucast_id is_up)

text \<open>Different byte strings are different strings: nothing is lost in the buffer.\<close>

lemma inj_string_of_bytes: "inj string_of_bytes"
  by (rule inj_on_inverseI [where g = "map ucast"]) (rule ucast_string_of_bytes)

lemma read_loop_eid: "read_loop e bs = (e', fin) \<Longrightarrow> eid e' = eid e"
  by (induction e bs rule: read_loop.induct) (auto split: if_splits)

lemma read_loop_encode:
  "\<not> esc e \<Longrightarrow>
   read_loop e (encode B @ rest) = read_loop (e\<lparr>out := out e @ string_of_bytes B\<rparr>) rest"
proof (induction B arbitrary: e)
  case Nil
  then show ?case by (simp add: string_of_bytes_def)
next
  case (Cons b B)
  let ?e' = "e\<lparr>esc := False, out := out e @ String_fromCharCode (uint b)\<rparr>"
  have step: "read_loop e (encode (b # B) @ rest) = read_loop ?e' (encode B @ rest)"
    using Cons.prems by (simp add: control_byte_def response_defs)
  have "\<not> esc ?e'" by simp
  from Cons.IH [OF this] have "read_loop ?e' (encode B @ rest) =
      read_loop (?e'\<lparr>out := out ?e' @ string_of_bytes B\<rparr>) rest" .
  moreover have "?e'\<lparr>out := out ?e' @ string_of_bytes B\<rparr> = e\<lparr>out := out e @ string_of_bytes (b # B)\<rparr>"
    using Cons.prems by (simp add: string_of_bytes_def)
  ultimately show ?case using step by simp
qed

lemma read_loop_frame_tail:
  assumes "\<not> esc e"
  shows "read_loop e (encode B @ [RESPONSE_OUTPUT_END]) = (e\<lparr>out := out e @ string_of_bytes B\<rparr>, True)"
  using assms by (simp add: read_loop_encode response_defs)

text \<open>What one buffer does that starts with OUTPUT while the head is being sent.\<close>

lemma serial_data_output:
  assumes "engine s = SENDING" and "train s = e # es"
  shows "serial_data s (RESPONSE_OUTPUT # bs) =
     (case read_loop e bs of
        (e', True) \<Rightarrow>
           next_cmd ((setTimeout (clearTimeout s))
             \<lparr>effects := effects s @ [Resolve (eid e) (VStr (out e'))],
              train := es, engine := IDLE\<rparr>)
      | (e', False) \<Rightarrow>
           (Normal, (setTimeout (clearTimeout s))\<lparr>engine := READING, train := e' # es\<rparr>))"
  using assms
  by (auto simp add: serial_data.simps [of s] reading_def data0_def response_defs effect_def
        Let_def dest: read_loop_eid split: prod.splits bool.splits)

text \<open>What a buffer does that starts with OK, SEND_INPUT or REJECTED.\<close>

lemma serial_data_ack:
  assumes "engine s = SENDING" and "train s = e # es"
    and "b = RESPONSE_OK \<or> b = RESPONSE_SEND_INPUT \<or> b = RESPONSE_REJECTED"
  shows "serial_data s (b # bs) =
     (let s' = (clearTimeout s)\<lparr>train := es, effects := effects s @ [Resolve (eid e) (VNum b)]\<rparr>
      in if bs \<noteq> [] then serial_data s' bs else next_cmd (s'\<lparr>engine := IDLE\<rparr>))"
  using assms
  by (auto simp add: serial_data.simps [of s] data0_def response_defs effect_def emit_def Let_def)

text \<open>
  C6. Two commands \<open>a\<close> and \<open>b\<close> are queued, \<open>a\<close> in flight, and the single buffer
  \<open>[0x01, 0x02]\<close> arrives. After \<open>a\<close> is resolved with 1 the decoder calls itself on the
  rest of the buffer; \<open>b\<close> is resolved with 2, the engine ends IDLE and the queue is
  empty.
\<close>

theorem pipelined_responses:
  assumes "engine s = SENDING" and "train s = [a, b]"
  shows "serial_data s [0x01, 0x02] =
           serial_data ((clearTimeout s)
             \<lparr>train := [b], effects := effects s @ [Resolve (eid a) (VNum 1)]\<rparr>) [0x02] \<and>
         serial_data s [0x01, 0x02] =
           (Normal, (clearTimeout s)\<lparr>train := [], engine := IDLE,
              effects := effects s @ [Resolve (eid a) (VNum 1), Resolve (eid b) (VNum 2)]\<rparr>)"
proof -
  let ?s1 = "(clearTimeout s)\<lparr>train := [b], effects := effects s @ [Resolve (eid a) (VNum 1)]\<rparr>"
  have 1: "serial_data s [1, 2] = serial_data ?s1 [2]"
    using serial_data_ack [OF assms(1), of a "[b]" 1 "[2]"] assms(2)
    by (simp add: response_defs)
  have e1: "engine ?s1 = SENDING" and t1: "train ?s1 = [b]"
    using assms by simp_all
  have 2: "serial_data ?s1 [2] = next_cmd ((clearTimeout ?s1)\<lparr>train := [],
       effects := effects ?s1 @ [Resolve (eid b) (VNum 2)], engine := IDLE\<rparr>)"
    using serial_data_ack [OF e1, of b "[]" 2 "[]"] t1
    by (simp add: response_defs)
  have 3: "serial_data ?s1 [2] =
      (Normal, (clearTimeout s)\<lparr>train := [], engine := IDLE,
         effects := effects s @ [Resolve (eid a) (VNum 1), Resolve (eid b) (VNum 2)]\<rparr>)"
    unfolding 2 by (simp add: next_cmd_empty clearTimeout_def split: option.splits)
  show ?thesis using 1 3 by simp
qed

theorem pipelined_responses_witness:
  "serial_data (run False [EvOpen, EvSend (DStr [0x02]) False, EvSend (DStr [0x01]) False]) [0x01, 0x02]
   = (Normal,
      \<lparr>train = [], engine = IDLE, lock_q = [], watchdog = Some 0, timers = [],
         timer_ctr = 1, serial = Some True, closing = False, reconnect = False,
         reject_on_locked = False, next_eid = 2,
         write_faults = [], error_listener = False,
         effects = [Emit ''open'', Write [0x02], Resolve 0 (VNum 1), Resolve 1 (VNum 2)]\<rparr>)"
proof -
  let ?s = "run False [EvOpen, EvSend (DStr [0x02]) False, EvSend (DStr [0x01]) False]"
  let ?a = "\<lparr>data = [0x02], eid = 0, esc = False, out = []\<rparr>"
  let ?b = "\<lparr>data = [0x01], eid = 1, esc = False, out = []\<rparr>"
  have h1: "engine ?s = SENDING" by (simp add: engine_defs)
  have h2: "train ?s = [?a, ?b]" by (simp add: engine_defs)
  from pipelined_responses [OF h1 h2, THEN conjunct2]
  show ?thesis by (simp add: engine_defs)
qed

text \<open>
  C7. A command is in flight, as \<open>send\<close> queued it, and the device replies with the
  single buffer \<open>[0x04, 0xAA, 0x06, 0x05, 0xBB, 0x05]\<close>. The head is resolved with the
  string \<open>[0xAA, 0x05, 0xBB]\<close>: the escape byte \<open>0x06\<close> sets the escape flag, the \<open>0x05\<close>
  after it is appended as a literal byte without ending the output and the flag is
  cleared, and the last, unescaped \<open>0x05\<close> ends the output.
\<close>

theorem escaped_output_end_is_literal:
  assumes "engine s = SENDING" and "train s = e # es" and "\<not> esc e" and "out e = []"
  shows "serial_data s [0x04, 0xAA, 0x06, 0x05, 0xBB, 0x05] =
           next_cmd ((setTimeout (clearTimeout s))
             \<lparr>effects := effects s @ [Resolve (eid e) (VStr [0xAA, 0x05, 0xBB])],
              train := es, engine := IDLE\<rparr>) \<and>
         esc (fst (read_loop e [0xAA, 0x06])) \<and>
         \<not> snd (read_loop e [0xAA, 0x06, 0x05]) \<and>
         \<not> esc (fst (read_loop e [0xAA, 0x06, 0x05])) \<and>
         out (fst (read_loop e [0xAA, 0x06, 0x05])) = [0xAA, 0x05] \<and>
         snd (read_loop e [0xAA, 0x06, 0x05, 0xBB, 0x05])"
proof -
  have rl: "read_loop e [0xAA, 0x06, 0x05, 0xBB, 0x05] = (e\<lparr>esc := False, out := [0xAA, 0x05, 0xBB]\<rparr>, True)"
    using assms(3,4) by (simp add: response_defs String_fromCharCode_def)
  have "serial_data s (RESPONSE_OUTPUT # [0xAA, 0x06, 0x05, 0xBB, 0x05]) =
           next_cmd ((setTimeout (clearTimeout s))
             \<lparr>effects := effects s @ [Resolve (eid e) (VStr [0xAA, 0x05, 0xBB])],
              train := es, engine := IDLE\<rparr>)"
    using serial_data_output [OF assms(1,2), of "[0xAA, 0x06, 0x05, 0xBB, 0x05]"] rl by simp
  then show ?thesis
    using assms(3,4) by (simp add: response_defs String_fromCharCode_def)
qed

text \<open>Scenario 2 of the specification: EXPORT_PUBLIC_IDENTITIES is sent, then the reply.\<close>

theorem escaped_output_end_is_literal_witness:
  "serial_data (run False [EvOpen, EvSend (DStr [0x1E]) False]) [0x04, 0xAA, 0x06, 0x05, 0xBB, 0x05]
   = (Normal,
      \<lparr>train = [], engine = IDLE, lock_q = [], watchdog = Some 1, timers = [1],
         timer_ctr = 2, serial = Some True, closing = False, reconnect = False,
         reject_on_locked = False, next_eid = 1,
         write_faults = [], error_listener = False,
         effects = [Emit ''open'', Write [0x1E], Resolve 0 (VStr [0xAA, 0x05, 0xBB])]\<rparr>)"
proof -
  let ?s = "run False [EvOpen, EvSend (DStr [0x1E]) False]"
  let ?e = "\<lparr>data = [0x1E], eid = 0, esc = False, out = []\<rparr>"
  have h1: "engine ?s = SENDING" by (simp add: engine_defs)
  have h2: "train ?s = ?e # []" by (simp add: engine_defs)
  have h3: "\<not> esc ?e" by simp
  have h4: "out ?e = []" by simp
  from escaped_output_end_is_literal [OF h1 h2 h3 h4]
  show ?thesis by (simp add: engine_defs)
qed

lemma feed_simps [simp]:
  "feed s [] = s"
  "feed s (c # cs) = feed (snd (serial_data s c)) cs"
  by (simp_all add: feed_def)

lemma rearm_fields [simp]:
  "train (rearm s) = train s"
  "engine (rearm s) = engine s"
  "effects (rearm s) = effects s"
  by (simp_all add: rearm_def)

lemma rearm_upd [simp]:
  "rearm (s\<lparr>train := tr\<rparr>) = (rearm s)\<lparr>train := tr\<rparr>"
  "rearm (s\<lparr>engine := st\<rparr>) = (rearm s)\<lparr>engine := st\<rparr>"
  "rearm (s\<lparr>effects := fx\<rparr>) = (rearm s)\<lparr>effects := fx\<rparr>"
  by (simp_all add: rearm_def)

lemma rearm_funpow_upd [simp]:
  "(rearm ^^ n) (s\<lparr>train := tr\<rparr>) = ((rearm ^^ n) s)\<lparr>train := tr\<rparr>"
  "(rearm ^^ n) (s\<lparr>engine := st\<rparr>) = ((rearm ^^ n) s)\<lparr>engine := st\<rparr>"
  by (induction n) simp_all

lemma rearm_funpow_fields [simp]:
  "effects ((rearm ^^ n) s) = effects s"
  by (induction n) simp_all

lemma read_loop_append:
  "read_loop e (xs @ ys) =
     (case read_loop e xs of (e', True) \<Rightarrow> (e', True) | (e', False) \<Rightarrow> read_loop e' ys)"
  by (induction e xs rule: read_loop.induct) simp_all

lemma read_loop_prefix_encode:
  "\<not> esc e \<Longrightarrow> prefix xs (encode B) \<Longrightarrow> \<not> snd (read_loop e xs)"
proof (induction B arbitrary: e xs)
  case Nil
  then show ?case by simp
next
  case (Cons b B)
  show ?case
  proof (cases xs)
    case Nil
    then show ?thesis by simp
  next
    case (Cons x xs')
    show ?thesis
    proof (cases "control_byte b")
      case False
      then have xb: "x = b" and p: "prefix xs' (encode B)"
        using Cons.prems(2) Cons by simp_all
      have nb: "b \<noteq> RESPONSE_ESC_SEQUENCE" "b \<noteq> RESPONSE_OUTPUT_END"
        using False by (auto simp add: control_byte_def response_defs)
      let ?e' = "e\<lparr>esc := False, out := out e @ String_fromCharCode (uint b)\<rparr>"
      have "\<not> snd (read_loop ?e' xs')" using p by (intro Cons.IH) simp_all
      then show ?thesis using Cons xb nb by simp
    next
      case True
      then have x6: "x = RESPONSE_ESC_SEQUENCE" and p: "prefix xs' (b # encode B)"
        using Cons.prems(2) Cons by simp_all
      show ?thesis
      proof (cases xs')
        case Nil
        then show ?thesis using Cons x6 Cons.prems(1) by simp
      next
        case (Cons y ys)
        then have yb: "y = b" and p': "prefix ys (encode B)" using p by simp_all
        let ?e' = "e\<lparr>esc := False, out := out e @ String_fromCharCode (uint b)\<rparr>"
        have "\<not> snd (read_loop ?e' ys)" using p' by (intro Cons.IH) simp_all
        then show ?thesis using \<open>xs = x # xs'\<close> Cons x6 yb Cons.prems(1) by simp
      qed
    qed
  qed
qed


lemma serial_data_reading:
  assumes "engine s = READING" and "train s = e # es"
  shows "serial_data s bs =
     (case read_loop e bs of
        (e', True) \<Rightarrow>
           next_cmd ((rearm s)
             \<lparr>effects := effects s @ [Resolve (eid e) (VStr (out e'))],
              train := es, engine := IDLE\<rparr>)
      | (e', False) \<Rightarrow> (Normal, (rearm s)\<lparr>train := e' # es\<rparr>))"
  using assms
  by (auto simp add: serial_data.simps [of s] reading_def rearm_def effect_def
        Let_def dest: read_loop_eid split: prod.splits bool.splits)

lemma strict_prefix_concat_tail:
  assumes "cs \<noteq> []" and "[] \<notin> set cs"
  shows "strict_prefix c (concat (c # cs))"
proof -
  have "concat cs \<noteq> []" using assms by (cases cs) auto
  then show ?thesis by (simp add: strict_prefix_def)
qed

lemma feed_reading:
  assumes "engine s = READING" and "train s = e # es"
    and "chunks \<noteq> []" and "[] \<notin> set chunks"
    and "read_loop e (concat chunks) = (e', True)"
    and "\<And>xs. strict_prefix xs (concat chunks) \<Longrightarrow> \<not> snd (read_loop e xs)"
  shows "feed s chunks =
     snd (next_cmd (((rearm ^^ length chunks) s)
       \<lparr>effects := effects s @ [Resolve (eid e) (VStr (out e'))],
        train := es, engine := IDLE\<rparr>))"
  using assms
proof (induction chunks arbitrary: s e)
  case Nil
  then show ?case by simp
next
  case (Cons c cs)
  show ?case
  proof (cases "cs = []")
    case True
    then have "read_loop e c = (e', True)" using Cons.prems(5) by simp
    then show ?thesis
      using True serial_data_reading [OF Cons.prems(1,2), of c] by simp
  next
    case False
    have ne: "[] \<notin> set cs" using Cons.prems(4) by simp
    have "strict_prefix c (concat (c # cs))" using False ne by (rule strict_prefix_concat_tail)
    then have nf: "\<not> snd (read_loop e c)" by (rule Cons.prems(6))
    then obtain e1 where r1: "read_loop e c = (e1, False)" by (cases "read_loop e c") auto
    let ?s1 = "(rearm s)\<lparr>train := e1 # es\<rparr>"
    have sd: "serial_data s c = (Normal, ?s1)"
      using serial_data_reading [OF Cons.prems(1,2), of c] r1 by simp
    have app: "\<And>ys. read_loop e (c @ ys) = read_loop e1 ys"
      using r1 by (simp add: read_loop_append)
    have r2: "read_loop e1 (concat cs) = (e', True)"
      using Cons.prems(5) app [of "concat cs"] by simp
    have np: "\<And>xs. strict_prefix xs (concat cs) \<Longrightarrow> \<not> snd (read_loop e1 xs)"
    proof -
      fix xs assume "strict_prefix xs (concat cs)"
      then have "strict_prefix (c @ xs) (concat (c # cs))" by (simp add: strict_prefix_def)
      then have "\<not> snd (read_loop e (c @ xs))" by (rule Cons.prems(6))
      then show "\<not> snd (read_loop e1 xs)" using app [of xs] by simp
    qed
    have "feed ?s1 cs =
       snd (next_cmd (((rearm ^^ length cs) ?s1)
         \<lparr>effects := effects ?s1 @ [Resolve (eid e1) (VStr (out e'))],
          train := es, engine := IDLE\<rparr>))"
      using Cons.prems(1) False ne r2 np by (intro Cons.IH) simp_all
    moreover have "eid e1 = eid e" using r1 by (rule read_loop_eid)
    moreover have "((rearm ^^ length cs) ?s1)
         \<lparr>effects := effects ?s1 @ [Resolve (eid e) (VStr (out e'))],
          train := es, engine := IDLE\<rparr>
       = ((rearm ^^ length (c # cs)) s)
         \<lparr>effects := effects s @ [Resolve (eid e) (VStr (out e'))],
          train := es, engine := IDLE\<rparr>"
      by (simp add: funpow_swap1)
    ultimately show ?thesis using sd by simp
  qed
qed


lemma prefix_of_snoc:
  assumes "xs @ ys = zs @ [z]" and "ys \<noteq> []"
  shows "prefix xs zs"
proof -
  obtain ys' y where ys: "ys = ys' @ [y]" using assms(2) by (cases ys rule: rev_cases) auto
  then have "xs @ ys' = zs" using assms(1) by simp
  then show ?thesis by (auto simp add: prefix_def)
qed

text \<open>
  C5, as the code has it. The claim speaks of any head entry in SENDING state. The escape
  flag and the output buffer are kept in the entry, and \<open>send\<close> with \<open>prepend\<close> puts its
  entry in front of the one in flight: after the bytes \<open>[0x04, 0xAA]\<close>, a prepended
  submission and the byte \<open>0x05\<close>, entry 0 is the head again, in SENDING, with \<open>0xAA\<close> in
  its buffer, and the frame of \<open>[0x42]\<close> resolves it with \<open>[0xAA, 0x42]\<close>.
\<close>

theorem stale_head_keeps_old_output:
  "engine (run False [EvOpen, EvSend (DStr [0x1E]) False, EvData [0x04, 0xAA],
             EvSend (DStr [0x64]) True, EvData [0x05]]) = SENDING \<and>
   map eid (train (run False [EvOpen, EvSend (DStr [0x1E]) False, EvData [0x04, 0xAA],
             EvSend (DStr [0x64]) True, EvData [0x05]])) = [0] \<and>
   frame [0x42] = [0x04, 0x42, 0x05] \<and>
   string_of_bytes [0x42] = [0x42] \<and>
   handle_calls 0 (effects (snd (serial_data
       (run False [EvOpen, EvSend (DStr [0x1E]) False, EvData [0x04, 0xAA],
             EvSend (DStr [0x64]) True, EvData [0x05]])
       (frame [0x42]))))
     = [Resolve 0 (VStr [0xAA, 0x42])]"
  by (simp add: engine_defs serial_data.simps handle_calls_def frame_def control_byte_def
      string_of_bytes_def)

text \<open>
  C5, amended. Escape round trip. For every byte string \<open>B\<close>: encode \<open>B\<close> with an escape
  byte before every control byte, frame it by OUTPUT and OUTPUT_END, cut the frame into
  non-empty buffers in any way (one buffer, or a cut at any byte boundary, also between
  an escape byte and the byte it escapes), and feed the buffers in order to the decoder
  while the head entry, as \<open>send\<close> queued it (escape flag clear, output buffer empty), is
  being sent. The head is resolved with exactly \<open>B\<close> (the string holding the bytes of
  \<open>B\<close>), it is shifted off the train, the engine goes IDLE and calls \<open>next\<close>; the
  resolution is the first effect of the feeding. The watchdog has been cleared and armed
  once for each buffer.
\<close>

theorem escape_round_trip:
  assumes "engine s = SENDING" and "train s = e # es" and "\<not> esc e" and "out e = []"
    and "concat chunks = frame B" and "[] \<notin> set chunks"
  shows "feed s chunks =
           snd (next_cmd (((rearm ^^ length chunks) s)
             \<lparr>effects := effects s @ [Resolve (eid e) (VStr (string_of_bytes B))],
              train := es, engine := IDLE\<rparr>)) \<and>
         prefix (effects s @ [Resolve (eid e) (VStr (string_of_bytes B))])
           (effects (feed s chunks)) \<and>
         serial_data s (frame B) =
           next_cmd ((rearm s)
             \<lparr>effects := effects s @ [Resolve (eid e) (VStr (string_of_bytes B))],
              train := es, engine := IDLE\<rparr>)"
proof -
  let ?r = "Resolve (eid e) (VStr (string_of_bytes B))"
  let ?e' = "e\<lparr>out := string_of_bytes B\<rparr>"
  have rl: "read_loop e (encode B @ [RESPONSE_OUTPUT_END]) = (?e', True)"
    using read_loop_frame_tail [OF assms(3), of B] assms(4) by simp
  have single: "serial_data s (frame B) =
      next_cmd ((rearm s)\<lparr>effects := effects s @ [?r], train := es, engine := IDLE\<rparr>)"
    using serial_data_output [OF assms(1,2), of "encode B @ [RESPONSE_OUTPUT_END]"] rl
    by (simp add: frame_def rearm_def)
  obtain c cs where ch: "chunks = c # cs" using assms(5) by (cases chunks) (auto simp add: frame_def)
  have cne: "c \<noteq> []" using assms(6) ch by auto
  then obtain c' where c: "c = RESPONSE_OUTPUT # c'"
    and rest: "c' @ concat cs = encode B @ [RESPONSE_OUTPUT_END]"
    using assms(5) ch by (cases c) (auto simp add: frame_def)
  have fd: "feed s chunks =
      snd (next_cmd (((rearm ^^ length chunks) s)
        \<lparr>effects := effects s @ [?r], train := es, engine := IDLE\<rparr>))"
  proof (cases "cs = []")
    case True
    then have "c = frame B" using c rest by (simp add: frame_def)
    then show ?thesis using single ch True by simp
  next
    case False
    have ne: "[] \<notin> set cs" using assms(6) ch by simp
    then have tail: "concat cs \<noteq> []" using False by (cases cs) auto
    have "prefix c' (encode B)" using rest tail by (rule prefix_of_snoc)
    then have "\<not> snd (read_loop e c')" using assms(3) by (intro read_loop_prefix_encode)
    then obtain e1 where r1: "read_loop e c' = (e1, False)" by (cases "read_loop e c'") auto
    let ?s1 = "(rearm s)\<lparr>engine := READING, train := e1 # es\<rparr>"
    have sd: "serial_data s c = (Normal, ?s1)"
      using serial_data_output [OF assms(1,2), of c'] r1 c by (simp add: rearm_def)
    have app: "\<And>ys. read_loop e (c' @ ys) = read_loop e1 ys"
      using r1 by (simp add: read_loop_append)
    have r2: "read_loop e1 (concat cs) = (?e', True)"
      using rl rest app [of "concat cs"] by simp
    have np: "\<And>xs. strict_prefix xs (concat cs) \<Longrightarrow> \<not> snd (read_loop e1 xs)"
    proof -
      fix xs assume sp: "strict_prefix xs (concat cs)"
      then obtain ys where ys: "concat cs = xs @ ys" and "ys \<noteq> []"
        by (auto simp add: strict_prefix_def prefix_def)
      then have "(c' @ xs) @ ys = encode B @ [RESPONSE_OUTPUT_END]" using rest by simp
      then have "prefix (c' @ xs) (encode B)" using \<open>ys \<noteq> []\<close> by (rule prefix_of_snoc)
      then have "\<not> snd (read_loop e (c' @ xs))" using assms(3) by (intro read_loop_prefix_encode)
      then show "\<not> snd (read_loop e1 xs)" using app [of xs] by simp
    qed
    have "feed ?s1 cs =
       snd (next_cmd (((rearm ^^ length cs) ?s1)
         \<lparr>effects := effects ?s1 @ [Resolve (eid e1) (VStr (out ?e'))],
          train := es, engine := IDLE\<rparr>))"
      using False ne r2 np by (intro feed_reading) simp_all
    moreover have "eid e1 = eid e" using r1 by (rule read_loop_eid)
    moreover have "((rearm ^^ length cs) ?s1)
         \<lparr>effects := effects ?s1 @ [?r], train := es, engine := IDLE\<rparr>
       = ((rearm ^^ length chunks) s)
         \<lparr>effects := effects s @ [?r], train := es, engine := IDLE\<rparr>"
      using ch by (simp add: funpow_swap1)
    ultimately show ?thesis using sd ch by simp
  qed
  let ?s' = "((rearm ^^ length chunks) s)
        \<lparr>effects := effects s @ [?r], train := es, engine := IDLE\<rparr>"
  have "prefix (effects ?s') (effects (snd (next_cmd ?s')))"
    by (rule next_cmd_effects_prefix)
  then have "prefix (effects s @ [?r]) (effects (feed s chunks))"
    using fd by simp
  then show ?thesis using fd single by simp
qed

text \<open>
  A payload made of control bytes, an error byte and an ordinary byte, in three buffers
  cut after escape bytes, and in one buffer.
\<close>

theorem escape_round_trip_witness:
  "effects (feed (run False [EvOpen, EvSend (DStr [0x1E]) False])
      [[0x04, 0x06], [0x05, 0x06, 0x06, 0x41, 0x06], [0xFF, 0x06, 0x0A, 0x05]])
   = [Emit ''open'', Write [0x1E], Resolve 0 (VStr [0x05, 0x06, 0x41, 0xFF, 0x0A])] \<and>
   effects (snd (serial_data (run False [EvOpen, EvSend (DStr [0x1E]) False])
      (frame [0x05, 0x06, 0x41, 0xFF, 0x0A])))
   = [Emit ''open'', Write [0x1E], Resolve 0 (VStr [0x05, 0x06, 0x41, 0xFF, 0x0A])] \<and>
   frame [0x05, 0x06, 0x41, 0xFF, 0x0A]
   = [0x04, 0x06, 0x05, 0x06, 0x06, 0x41, 0x06, 0xFF, 0x06, 0x0A, 0x05]"
proof -
  let ?s = "run False [EvOpen, EvSend (DStr [0x1E]) False]"
  let ?e = "\<lparr>data = [0x1E], eid = 0, esc = False, out = []\<rparr>"
  let ?B = "[0x05, 0x06, 0x41, 0xFF, 0x0A] :: byte list"
  let ?chunks = "[[0x04, 0x06], [0x05, 0x06, 0x06, 0x41, 0x06], [0xFF, 0x06, 0x0A, 0x05]]
     :: byte list list"
  have h1: "engine ?s = SENDING" by (simp add: engine_defs)
  have h2: "train ?s = ?e # []" by (simp add: engine_defs)
  have h3: "\<not> esc ?e" by simp
  have h4: "out ?e = []" by simp
  have fr: "frame ?B = [0x04, 0x06, 0x05, 0x06, 0x06, 0x41, 0x06, 0xFF, 0x06, 0x0A, 0x05]"
    by (simp add: frame_def control_byte_def response_defs)
  have h5: "concat ?chunks = frame ?B" by (simp add: fr)
  have h6: "[] \<notin> set ?chunks" by simp
  have st: "string_of_bytes ?B = [0x05, 0x06, 0x41, 0xFF, 0x0A]"
    by (simp add: string_of_bytes_def String_fromCharCode_def)
  have ef: "effects ?s = [Emit ''open'', Write [0x1E]]" by (simp add: engine_defs)
  note rt = escape_round_trip [OF h1 h2 h3 h4 h5 h6]
  have 1: "effects (feed ?s ?chunks) = [Emit ''open'', Write [0x1E], Resolve 0 (VStr [0x05, 0x06, 0x41, 0xFF, 0x0A])]"
    using rt [THEN conjunct1] ef by (simp add: st next_cmd_empty)
  have 2: "effects (snd (serial_data ?s (frame ?B)))
      = [Emit ''open'', Write [0x1E], Resolve 0 (VStr [0x05, 0x06, 0x41, 0xFF, 0x0A])]"
    using rt [THEN conjunct2, THEN conjunct2] ef by (simp add: st next_cmd_empty)
  show ?thesis using 1 2 fr by simp
qed

section \<open>The LOCKED response\<close>

text \<open>
  What a buffer does that starts with LOCKED while the head is being sent. Under
  \<open>reject_on_locked\<close> every entry is rejected and every entry stays on the train.
  Otherwise "locked" is emitted and the byte goes on to the last branch of the chain,
  as a response the driver does not know: the head is rejected and shifted, the engine
  goes IDLE, and what is left of the buffer is passed to an engine that is IDLE.
\<close>

lemma serial_data_locked_strict:
  assumes "engine s = SENDING" and "train s = e # es" and "reject_on_locked s"
  shows "serial_data s (RESPONSE_LOCKED # rest) =
           (Normal, emit ''locked''
              ((reject_all (Error ''ERROR_LOCKED'') (clearTimeout s))\<lparr>engine := IDLE\<rparr>))"
    and "train (snd (serial_data s (RESPONSE_LOCKED # rest))) = train s"
  using assms
  by (auto simp add: serial_data.simps [of s] data0_def response_defs effect_def
      emit_def Let_def reject_all_def)

lemma serial_data_locked_permissive:
  assumes "engine s = SENDING" and "train s = e # es" and "\<not> reject_on_locked s"
  shows "serial_data s (RESPONSE_LOCKED # rest) =
     (let s' = (clearTimeout s)
        \<lparr>effects := effects s @ [Emit ''locked'', Reject (eid e) (Error ''ERROR_UNKNOWN_RESPONSE'')],
         train := es, engine := IDLE\<rparr>
      in if rest \<noteq> [] then (Normal, s') else next_cmd s')"
  using assms
  by (auto simp add: serial_data.simps [of s] serial_data_idle data0_def response_defs effect_def
      emit_def Let_def response_error_def response_errors_def)

text \<open>
  C2. The claim is that a LOCKED byte under \<open>reject_on_locked = false\<close> emits \<open>locked\<close>
  once, leaves the head pending, keeps the engine in SENDING and lets the rest of the
  buffer be decoded. The code emits \<open>locked\<close> once and then falls into the last branch
  of the chain: with two commands queued and the buffer \<open>[0x0B, 0x01]\<close>, the head is
  rejected with ERROR_UNKNOWN_RESPONSE, the engine is IDLE, the byte \<open>0x01\<close> is
  discarded, and the second command stays queued, unsent.
\<close>

theorem locked_permissive_fails_head:
  "effects (run False [EvOpen, EvSend (DStr [2]) False, EvSend (DStr [1]) False, EvData [0x0B, 0x01]])
     = [Emit ''open'', Write [2], Emit ''locked'', Reject 0 (Error ''ERROR_UNKNOWN_RESPONSE'')] \<and>
   engine (run False [EvOpen, EvSend (DStr [2]) False, EvSend (DStr [1]) False, EvData [0x0B, 0x01]])
     = IDLE \<and>
   map eid (train (run False [EvOpen, EvSend (DStr [2]) False, EvSend (DStr [1]) False, EvData [0x0B, 0x01]]))
     = [1]"
  by (simp add: engine_defs serial_data.simps)

text \<open>
  C1. The claim is that exactly one completion handle of every submitted command is
  ever invoked. Under \<open>reject_on_locked = true\<close> a LOCKED byte rejects every entry but
  leaves them all on the train. The rejected entry 0 is then written again when the
  next command is submitted, and the reply resolves it: its rejecter and its resolver
  have both been invoked. A \<open>clear()\<close> after the LOCKED byte invokes its rejecter a
  second time. (Apart from LOCKED: when \<open>next\<close> finds the port closed it calls \<open>clear\<close>,
  which rejects the head, and then rejects the head again itself.)
\<close>

theorem locked_rejection_leaves_entries_queued:
  "fst (send (DStr [2]) False (run True [EvOpen])) = Pending 0 \<and>
   handle_calls 0 (effects (run True
      [EvOpen, EvSend (DStr [2]) False, EvData [0x0B], EvSend (DStr [1]) False, EvData [0x01]]))
     = [Reject 0 (Error ''ERROR_LOCKED''), Resolve 0 (VNum 1)] \<and>
   handle_calls 0 (effects (run True
      [EvOpen, EvSend (DStr [2]) False, EvData [0x0B], EvClear]))
     = [Reject 0 (Error ''ERROR_LOCKED''), Reject 0 (Error ''ERROR_CLEARED'')] \<and>
   handle_calls 1 (effects (run False
      [EvOpen, EvSend (DStr [2]) False, EvSend (DStr [1]) False, EvClose, EvTimer 0]))
     = [Reject 1 (Error ''ERROR_CLEARED''), Reject 1 (Error ''ERROR_DISCONNECTED'')]"
  by (simp add: engine_defs serial_data.simps handle_calls_def)

section \<open>The watchdog\<close>


lemma wd_inv_upd [simp]:
  "wd_inv (s\<lparr>effects := fx\<rparr>) = wd_inv s"
  "wd_inv (s\<lparr>lock_q := lq\<rparr>) = wd_inv s"
  "wd_inv (s\<lparr>serial := sp\<rparr>) = wd_inv s"
  "wd_inv (s\<lparr>closing := cl\<rparr>) = wd_inv s"
  "wd_inv (s\<lparr>reconnect := rc\<rparr>) = wd_inv s"
  "wd_inv (s\<lparr>next_eid := n\<rparr>) = wd_inv s"
  "wd_inv (s\<lparr>write_faults := fs\<rparr>) = wd_inv s"
  "wd_inv (s\<lparr>error_listener := el\<rparr>) = wd_inv s"
  by (simp_all add: wd_inv_def wd_ok_def)

lemma wd_ok_upd [simp]:
  "wd_ok (s\<lparr>train := tr\<rparr>) = wd_ok s"
  "wd_ok (s\<lparr>engine := st\<rparr>) = wd_ok s"
  "wd_ok (s\<lparr>effects := fx\<rparr>) = wd_ok s"
  by (simp_all add: wd_ok_def)







lemma serial_write_inv:
  "serial_write str s = (r, s') \<Longrightarrow> wd_inv s' = wd_inv s"
  by (auto simp add: serial_write_def effect_def split: list.splits option.splits)






























end
